theory Spec2Isabelle
  imports Complex_Main "HOL-Library.Sublist"
begin

section \<open>Bridge Spy plugin: row model, retention buffer, filter predicate, rate sampler\<close>

text \<open>
  A shallow embedding of \<^verbatim>\<open>src/index.tsx\<close>. Wall-clock readings (\<^verbatim>\<open>Date.now()\<close>) are an
  explicit argument \<open>now\<close> (epoch milliseconds, an integer); one reducer call and one
  sampler tick read the clock at a single instant. The locale-dependent
  \<^verbatim>\<open>Date.prototype.toLocaleString\<close> is an argument \<open>fmt\<close>. A thrown exception is the left
  injection of a sum.
\<close>

subsection \<open>JavaScript values and \<^verbatim>\<open>JSON.stringify\<close>\<close>

text \<open>
  Strings are the UTF-8 encoding of a well-formed JavaScript string, so that
  \<^verbatim>\<open>new TextEncoder().encode(s).length\<close> is \<open>length s\<close>. Numbers are the integer-valued
  ones (identifiers, epoch milliseconds), printed in decimal. \<open>JCyclic\<close> stands for an
  object that is reachable from itself and \<open>JBigInt\<close> for a BigInt: the two values of
  the model on which \<^verbatim>\<open>JSON.stringify\<close> throws a TypeError.
\<close>

datatype js_error = TypeError

datatype jsval =
    JUndefined
  | JNull
  | JBool bool
  | JNum int
  | JStr string
  | JArr "jsval list"
  | JObj "(string \<times> jsval) list"
  | JBigInt int
  | JCyclic

fun bindE :: "'e + 'a \<Rightarrow> ('a \<Rightarrow> 'e + 'b) \<Rightarrow> 'e + 'b" where
  "bindE (Inl e) f = Inl e"
| "bindE (Inr x) f = f x"

text \<open>\<^verbatim>\<open>Array.prototype.map\<close> and \<^verbatim>\<open>filter\<close> with a callback that may throw: the first
  exception, in index order, ends the call and no array is returned.\<close>

fun mapE :: "('a \<Rightarrow> 'e + 'b) \<Rightarrow> 'a list \<Rightarrow> 'e + 'b list" where
  "mapE f [] = Inr []"
| "mapE f (x # xs) = bindE (f x) (\<lambda>y. bindE (mapE f xs) (\<lambda>ys. Inr (y # ys)))"

fun filterE :: "('a \<Rightarrow> 'e + bool) \<Rightarrow> 'a list \<Rightarrow> 'e + 'a list" where
  "filterE p [] = Inr []"
| "filterE p (x # xs) =
     bindE (p x) (\<lambda>b. bindE (filterE p xs) (\<lambda>ys. Inr (if b then x # ys else ys)))"

definition digit_char :: "nat \<Rightarrow> char" where
  "digit_char d = ''0123456789abcdef'' ! (d mod 16)"

function show_nat :: "nat \<Rightarrow> string" where
  "show_nat n = (if n < 10 then [digit_char n] else show_nat (n div 10) @ [digit_char (n mod 10)])"
  by pat_completeness auto
termination
  by (relation "measure id") auto

declare show_nat.simps [simp del]

definition show_int :: "int \<Rightarrow> string" where
  "show_int i = (if i < 0 then ''-'' @ show_nat (nat (- i)) else show_nat (nat i))"

definition escape_char :: "char \<Rightarrow> string" where
  "escape_char c =
     (if c = CHR 0x22 then [CHR 0x5C, CHR 0x22]
      else if c = CHR 0x5C then [CHR 0x5C, CHR 0x5C]
      else if c = CHR 0x08 then [CHR 0x5C, CHR ''b'']
      else if c = CHR 0x0C then [CHR 0x5C, CHR ''f'']
      else if c = CHR 0x0A then [CHR 0x5C, CHR ''n'']
      else if c = CHR 0x0D then [CHR 0x5C, CHR ''r'']
      else if c = CHR 0x09 then [CHR 0x5C, CHR ''t'']
      else if (of_char c :: nat) < 32
        then [CHR 0x5C, CHR ''u'', CHR ''0'', CHR ''0'',
              digit_char (of_char c div 16), digit_char (of_char c mod 16)]
      else [c])"

definition quote :: "string \<Rightarrow> string" where
  "quote s = [CHR 0x22] @ concat (map escape_char s) @ [CHR 0x22]"

fun join_comma :: "string list \<Rightarrow> string" where
  "join_comma [] = []"
| "join_comma [s] = s"
| "join_comma (s # t # ts) = s @ '','' @ join_comma (t # ts)"

text \<open>A value with no JSON text: an object property holding it is left out, an array
  element holding it is written \<^verbatim>\<open>null\<close>, and at top level the result is \<^verbatim>\<open>undefined\<close>.\<close>

fun throws :: "jsval \<Rightarrow> bool" where
  "throws (JArr xs) = (\<exists>v \<in> set xs. throws v)"
| "throws (JObj kvs) = (\<exists>kv \<in> set kvs. throws (snd kv))"
| "throws (JBigInt n) = True"
| "throws JCyclic = True"
| "throws v = False"

fun json_text :: "jsval \<Rightarrow> string" where
  "json_text JUndefined = []"
| "json_text JNull = ''null''"
| "json_text (JBool b) = (if b then ''true'' else ''false'')"
| "json_text (JNum n) = show_int n"
| "json_text (JStr s) = quote s"
| "json_text (JArr xs) =
     ''['' @ join_comma (map (\<lambda>v. if v = JUndefined then ''null'' else json_text v) xs) @ '']''"
| "json_text (JObj kvs) =
     ''{'' @ join_comma (map (\<lambda>kv. quote (fst kv) @ '':'' @ json_text (snd kv))
                          (filter (\<lambda>kv. snd kv \<noteq> JUndefined) kvs)) @ ''}''"
| "json_text (JBigInt n) = []"
| "json_text JCyclic = []"

definition JSON_stringify :: "jsval \<Rightarrow> js_error + string option" where
  "JSON_stringify v =
     (if throws v then Inl TypeError
      else if v = JUndefined then Inr None
      else Inr (Some (json_text v)))"

subsection \<open>Types of the plugin\<close>

text \<open>\<^verbatim>\<open>DataRow\<close>: the event as delivered by the host. \<open>module\<close> may be absent
  (\<^verbatim>\<open>r.module ?? ""\<close>), \<open>method\<close> is a string or a number, and \<open>args\<close> is whatever
  structured value the event carries.\<close>

datatype StringOrNumber = Str string | Num int

record DataRow =
  id_field :: string
  time :: int
  type :: string
  module :: "string option"
  method_field :: StringOrNumber
  args :: jsval

text \<open>A cell of \<^verbatim>\<open>MessageRow.columns\<close>: \<^verbatim>\<open>value\<close> is \<open>None\<close> when the property holds
  \<^verbatim>\<open>undefined\<close>; \<open>isFilterable\<close> is \<open>False\<close> where the cell has no such property
  (\<^verbatim>\<open>index\<close>, \<^verbatim>\<open>time\<close>). The column object is an association list from property names
  to cells, in the order of the object literal.\<close>

record Cell =
  value_field :: "string option"
  isFilterable :: bool

record MessageRow =
  columns :: "(string \<times> Cell) list"
  timestamp :: int
  payload :: jsval
  key :: string

text \<open>\<^verbatim>\<open>Filter\<close> comes from the host library; the plugin reads its \<^verbatim>\<open>key\<close> and
  \<^verbatim>\<open>value\<close>.\<close>

record Filter =
  filter_key :: string
  filter_value :: string

record State =
  selectedId :: "string option"
  filters :: "Filter list"
  messagesPerSecond :: int
  bandwidthPerSecond :: rat

record PersistedState =
  messageRows :: "MessageRow list"

datatype Payload = Single DataRow | Batch "DataRow list"

datatype Sidebar = Placeholder | PayloadPanel jsval

subsection \<open>Row model: \<^verbatim>\<open>buildRow\<close>\<close>

definition toString :: "StringOrNumber \<Rightarrow> string" where
  "toString m = (case m of Str s \<Rightarrow> s | Num n \<Rightarrow> show_int n)"

text \<open>The event object itself, which \<^verbatim>\<open>buildRow\<close> stores as the row's payload.\<close>

definition js_of_DataRow :: "DataRow \<Rightarrow> jsval" where
  "js_of_DataRow r = JObj
     [(''id'', JStr (id_field r)),
      (''time'', JNum (time r)),
      (''type'', JStr (type r)),
      (''module'', case module r of None \<Rightarrow> JUndefined | Some m \<Rightarrow> JStr m),
      (''method'', case method_field r of Str s \<Rightarrow> JStr s | Num n \<Rightarrow> JNum n),
      (''args'', args r)]"

text \<open>The callback of \<^verbatim>\<open>row.map\<close> (lines 98-135). The only expression of the object
  literal that can throw on a \<open>DataRow\<close> is \<^verbatim>\<open>JSON.stringify(r.args)\<close>; nothing catches it.\<close>

definition buildRow_one :: "(int \<Rightarrow> string) \<Rightarrow> DataRow \<Rightarrow> js_error + MessageRow" where
  "buildRow_one fmt r =
     bindE (JSON_stringify (args r)) (\<lambda>a. Inr
       \<lparr> columns =
           [(''index'', \<lparr> value_field = Some (id_field r), isFilterable = False \<rparr>),
            (''time'', \<lparr> value_field = Some (fmt (time r)), isFilterable = False \<rparr>),
            (''type'', \<lparr> value_field = Some (type r), isFilterable = True \<rparr>),
            (''module'', \<lparr> value_field = Some (case module r of None \<Rightarrow> [] | Some m \<Rightarrow> m),
                          isFilterable = True \<rparr>),
            (''method'', \<lparr> value_field = Some (toString (method_field r)), isFilterable = True \<rparr>),
            (''args'', \<lparr> value_field = a, isFilterable = True \<rparr>)],
         timestamp = time r,
         payload = js_of_DataRow r,
         key = id_field r \<rparr>)"

text \<open>Line 96: \<^verbatim>\<open>if (!(row instanceof Array)) row = [row]\<close>\<close>

definition as_array :: "Payload \<Rightarrow> DataRow list" where
  "as_array row = (case row of Single r \<Rightarrow> [r] | Batch rs \<Rightarrow> rs)"

definition buildRow :: "(int \<Rightarrow> string) \<Rightarrow> Payload \<Rightarrow> js_error + MessageRow list" where
  "buildRow fmt row = mapE (buildRow_one fmt) (as_array row)"

subsection \<open>Retention buffer: \<^verbatim>\<open>persistedStateReducer\<close>\<close>

definition persistedStateReducer ::
  "(int \<Rightarrow> string) \<Rightarrow> int \<Rightarrow> 'a PersistedState_scheme \<Rightarrow> string \<Rightarrow> Payload
     \<Rightarrow> js_error + 'a PersistedState_scheme" where
  "persistedStateReducer fmt now persistedState meth pl =
     (if meth = ''newRow'' then
        bindE (buildRow fmt pl) (\<lambda>newRows. Inr (persistedState
          \<lparr> messageRows :=
              filter (\<lambda>row. now - timestamp row < 5 * 60 * 1000)
                (messageRows persistedState @ newRows) \<rparr>))
      else Inr persistedState)"

text \<open>A run of appends, each at its own clock reading; an exception of the reducer ends
  the run.\<close>

fun appends ::
  "(int \<Rightarrow> string) \<Rightarrow> 'a PersistedState_scheme \<Rightarrow> (int \<times> Payload) list
     \<Rightarrow> js_error + 'a PersistedState_scheme" where
  "appends fmt ps [] = Inr ps"
| "appends fmt ps ((now, pl) # rest) =
     bindE (persistedStateReducer fmt now ps ''newRow'' pl) (\<lambda>ps'. appends fmt ps' rest)"

subsection \<open>Filter predicate and rate sampler\<close>

text \<open>The properties every object inherits from \<^verbatim>\<open>Object.prototype\<close>: reading one of
  them from the column object gives a function or an object, whose \<^verbatim>\<open>value\<close> property is
  \<^verbatim>\<open>undefined\<close>. Reading any other name that is not a column gives \<^verbatim>\<open>undefined\<close>, and
  \<^verbatim>\<open>undefined.value\<close> throws a TypeError.\<close>

definition Object_prototype_names :: "string list" where
  "Object_prototype_names =
     [''constructor'', ''__defineGetter__'', ''__defineSetter__'', ''hasOwnProperty'',
      ''__lookupGetter__'', ''__lookupSetter__'', ''isPrototypeOf'', ''propertyIsEnumerable'',
      ''toString'', ''valueOf'', ''__proto__'', ''toLocaleString'']"

text \<open>\<^verbatim>\<open>row.columns[k].value\<close>\<close>

definition column_value :: "MessageRow \<Rightarrow> string \<Rightarrow> js_error + string option" where
  "column_value row k =
     (case map_of (columns row) k of
        Some c \<Rightarrow> Inr (value_field c)
      | None \<Rightarrow> if k \<in> set Object_prototype_names then Inr None else Inl TypeError)"

text \<open>\<^verbatim>\<open>row.columns[filter.key].value === filter.value\<close> (line 235)\<close>

definition filter_equals :: "MessageRow \<Rightarrow> Filter \<Rightarrow> js_error + bool" where
  "filter_equals row f =
     bindE (column_value row (filter_key f)) (\<lambda>v. Inr (v = Some (filter_value f)))"

text \<open>Lines 230-236 of the per-row callback: the test of the filter set. The loop body
  returns in its first iteration. Leaving the loop without a return would give
  \<^verbatim>\<open>undefined\<close>, which \<^verbatim>\<open>Array.prototype.filter\<close> reads as false; the length test before the
  loop makes that branch unreachable.\<close>

definition matches_filters :: "Filter list \<Rightarrow> MessageRow \<Rightarrow> js_error + bool" where
  "matches_filters fs row =
     (if length fs = 0 then Inr True
      else case fs of f # rest \<Rightarrow> filter_equals row f | [] \<Rightarrow> Inr False)"

text \<open>The whole callback (lines 225-237): the 5-second window, then the filter set.\<close>

definition filterMessages_row :: "int \<Rightarrow> Filter list \<Rightarrow> MessageRow \<Rightarrow> js_error + bool" where
  "filterMessages_row now fs row =
     (if now - timestamp row > 5 * 1000 then Inr False else matches_filters fs row)"

definition filterMessages ::
  "int \<Rightarrow> 'b State_scheme \<Rightarrow> 'a PersistedState_scheme \<Rightarrow> js_error + MessageRow list" where
  "filterMessages now st ps = filterE (filterMessages_row now (filters st)) (messageRows ps)"

definition getMessagesPerSecond ::
  "int \<Rightarrow> 'b State_scheme \<Rightarrow> 'a PersistedState_scheme \<Rightarrow> js_error + int" where
  "getMessagesPerSecond now st ps =
     bindE (filterMessages now st ps)
       (\<lambda>filteredSecondMessages. Inr \<lceil>(of_nat (length filteredSecondMessages) :: rat) / 5\<rceil>)"

text \<open>The row object as \<^verbatim>\<open>JSON.stringify\<close> sees it.\<close>

definition js_of_Cell :: "Cell \<Rightarrow> jsval" where
  "js_of_Cell c = JObj
     ((''value'', case value_field c of None \<Rightarrow> JUndefined | Some s \<Rightarrow> JStr s)
      # (if isFilterable c then [(''isFilterable'', JBool True)] else []))"

definition js_of_MessageRow :: "MessageRow \<Rightarrow> jsval" where
  "js_of_MessageRow row = JObj
     [(''columns'', JObj (map (\<lambda>kc. (fst kc, js_of_Cell (snd kc))) (columns row))),
      (''key'', JStr (key row)),
      (''payload'', payload row),
      (''timestamp'', JNum (timestamp row))]"

definition getSizeInBytes :: "jsval \<Rightarrow> js_error + nat" where
  "getSizeInBytes obj =
     (case obj of
        JStr s \<Rightarrow> Inr (length s)
      | _ \<Rightarrow> bindE (JSON_stringify obj)
               (\<lambda>str. Inr (case str of None \<Rightarrow> 0 | Some s \<Rightarrow> length s)))"

definition getBandwidthPerSecond ::
  "int \<Rightarrow> 'b State_scheme \<Rightarrow> 'a PersistedState_scheme \<Rightarrow> js_error + rat" where
  "getBandwidthPerSecond now st ps =
     bindE (filterMessages now st ps) (\<lambda>filteredSecondMessages.
       bindE (getSizeInBytes (JArr (map js_of_MessageRow filteredSecondMessages)))
         (\<lambda>bytes. Inr (of_nat bytes / 5)))"

text \<open>The interval callback installed by \<^verbatim>\<open>componentDidMount\<close>: one sampler tick.\<close>

definition tick ::
  "int \<Rightarrow> 'b State_scheme \<Rightarrow> 'a PersistedState_scheme \<Rightarrow> js_error + 'b State_scheme" where
  "tick now st ps =
     bindE (getMessagesPerSecond now st ps) (\<lambda>mps.
       bindE (getBandwidthPerSecond now st ps) (\<lambda>bps.
         Inr (st \<lparr> messagesPerSecond := mps, bandwidthPerSecond := bps \<rparr>)))"

text \<open>The component state once the interval callback has run: \<^verbatim>\<open>setState\<close> is the
  callback's last statement, so a callback that throws leaves the state as it was.\<close>

definition after_tick ::
  "int \<Rightarrow> 'b State_scheme \<Rightarrow> 'a PersistedState_scheme \<Rightarrow> 'b State_scheme" where
  "after_tick now st ps = (case tick now st ps of Inr st' \<Rightarrow> st' | Inl e \<Rightarrow> st)"


subsection \<open>Selection and view controller\<close>

definition onFilterChange :: "'b State_scheme \<Rightarrow> Filter list \<Rightarrow> 'b State_scheme" where
  "onFilterChange st fs = st \<lparr> messagesPerSecond := 0, bandwidthPerSecond := 0, filters := fs \<rparr>"

definition onRowHighlighted :: "'b State_scheme \<Rightarrow> string list \<Rightarrow> 'b State_scheme" where
  "onRowHighlighted st keys =
     (if length keys > 0 then (case keys of k # rest \<Rightarrow> st \<lparr> selectedId := Some k \<rparr> | [] \<Rightarrow> st)
      else st)"

definition renderExtra :: "jsval \<Rightarrow> Sidebar" where
  "renderExtra extra = PayloadPanel extra"

definition renderSidebar :: "'b State_scheme \<Rightarrow> 'a PersistedState_scheme \<Rightarrow> Sidebar" where
  "renderSidebar st ps =
     (case selectedId st of
        Some sel \<Rightarrow>
          (case find (\<lambda>row. key row = sel) (messageRows ps) of
             Some message \<Rightarrow> renderExtra (payload message)
           | None \<Rightarrow> Placeholder)
      | None \<Rightarrow> Placeholder)"

definition clear ::
  "'b State_scheme \<Rightarrow> 'a PersistedState_scheme \<Rightarrow> 'b State_scheme \<times> 'a PersistedState_scheme" where
  "clear st ps = (st \<lparr> selectedId := None \<rparr>, ps \<lparr> messageRows := [] \<rparr>)"

subsection \<open>Reference definitions, in the words of the specification\<close>

text \<open>Whether a row passes a filter set (specification 4.3): every row passes the empty
  set; otherwise the first filter of the set decides, and the row passes when it has the
  column the filter names and that column's value equals the filter's value. A row without
  that column does not pass.\<close>

definition passes_filter_set :: "Filter list \<Rightarrow> MessageRow \<Rightarrow> bool" where
  "passes_filter_set fs row =
     (case fs of
        [] \<Rightarrow> True
      | f # rest \<Rightarrow>
          (case map_of (columns row) (filter_key f) of
             None \<Rightarrow> False
           | Some c \<Rightarrow> value_field c = Some (filter_value f)))"

text \<open>The rows of the buffer within the trailing 5-second sub-window that pass the active
  filter set (specification 4.4, steps 1 and 2).\<close>

definition sample_window_matches :: "int \<Rightarrow> Filter list \<Rightarrow> MessageRow list \<Rightarrow> MessageRow list" where
  "sample_window_matches now fs rows =
     filter (\<lambda>row. now - timestamp row \<le> 5 * 1000 \<and> passes_filter_set fs row) rows"

text \<open>The byte size of one payload: the encoded length of the raw string payload, or of its
  structural stringification (specification 4.4, step 4).\<close>

definition payload_size :: "jsval \<Rightarrow> nat" where
  "payload_size v = (case v of JStr s \<Rightarrow> length s | _ \<Rightarrow> length (json_text v))"

text \<open>The total byte size of the matched rows' payloads, divided by 5.\<close>

definition payload_bytes_per_second :: "MessageRow list \<Rightarrow> rat" where
  "payload_bytes_per_second matched =
     of_nat (sum_list (map (\<lambda>row. payload_size (payload row)) matched)) / 5"

text \<open>The cell that \<^verbatim>\<open>buildRow\<close> stores in the \<^verbatim>\<open>args\<close> column of a row it returns.\<close>

definition args_cell :: "DataRow \<Rightarrow> Cell" where
  "args_cell r =
     \<lparr> value_field = (if args r = JUndefined then None else Some (json_text (args r))),
       isFilterable = True \<rparr>"

subsection \<open>Concrete events, rows and states\<close>

definition fmt0 :: "int \<Rightarrow> string" where
  "fmt0 t = ''01/01/70, 00:00:01.000''"

definition event_a :: DataRow where
  "event_a = \<lparr> id_field = ''1'', time = 1000, type = ''in'', module = Some ''Net'',
               method_field = Str ''send'', args = JArr [JNull, JBool True] \<rparr>"

definition event_b :: DataRow where
  "event_b = \<lparr> id_field = ''2'', time = 400000, type = ''out'', module = None,
               method_field = Str ''recv'', args = JNull \<rparr>"

definition event_cyclic :: DataRow where
  "event_cyclic = \<lparr> id_field = ''3'', time = 400000, type = ''in'', module = None,
                    method_field = Str ''loop'', args = JCyclic \<rparr>"

definition row_a :: MessageRow where
  "row_a =
     \<lparr> columns =
         [(''index'', \<lparr> value_field = Some ''1'', isFilterable = False \<rparr>),
          (''time'', \<lparr> value_field = Some ''01/01/70, 00:00:01.000'', isFilterable = False \<rparr>),
          (''type'', \<lparr> value_field = Some ''in'', isFilterable = True \<rparr>),
          (''module'', \<lparr> value_field = Some ''Net'', isFilterable = True \<rparr>),
          (''method'', \<lparr> value_field = Some ''send'', isFilterable = True \<rparr>),
          (''args'', \<lparr> value_field = Some ''[null,true]'', isFilterable = True \<rparr>)],
       timestamp = 1000,
       payload = js_of_DataRow event_a,
       key = ''1'' \<rparr>"

definition row_b :: MessageRow where
  "row_b =
     \<lparr> columns =
         [(''index'', \<lparr> value_field = Some ''2'', isFilterable = False \<rparr>),
          (''time'', \<lparr> value_field = Some ''01/01/70, 00:00:01.000'', isFilterable = False \<rparr>),
          (''type'', \<lparr> value_field = Some ''out'', isFilterable = True \<rparr>),
          (''module'', \<lparr> value_field = Some [], isFilterable = True \<rparr>),
          (''method'', \<lparr> value_field = Some ''recv'', isFilterable = True \<rparr>),
          (''args'', \<lparr> value_field = Some ''null'', isFilterable = True \<rparr>)],
       timestamp = 400000,
       payload = js_of_DataRow event_b,
       key = ''2'' \<rparr>"

definition event_c :: DataRow where
  "event_c = \<lparr> id_field = ''4'', time = 1500, type = ''out'', module = Some ''Net'',
               method_field = Str ''recv'', args = JNull \<rparr>"

definition row_c :: MessageRow where
  "row_c =
     \<lparr> columns =
         [(''index'', \<lparr> value_field = Some ''4'', isFilterable = False \<rparr>),
          (''time'', \<lparr> value_field = Some ''01/01/70, 00:00:01.000'', isFilterable = False \<rparr>),
          (''type'', \<lparr> value_field = Some ''out'', isFilterable = True \<rparr>),
          (''module'', \<lparr> value_field = Some ''Net'', isFilterable = True \<rparr>),
          (''method'', \<lparr> value_field = Some ''recv'', isFilterable = True \<rparr>),
          (''args'', \<lparr> value_field = Some ''null'', isFilterable = True \<rparr>)],
       timestamp = 1500,
       payload = js_of_DataRow event_c,
       key = ''4'' \<rparr>"


definition filter_type_out :: Filter where
  "filter_type_out = \<lparr> filter_key = ''type'', filter_value = ''out'' \<rparr>"

definition filter_module_Net :: Filter where
  "filter_module_Net = \<lparr> filter_key = ''module'', filter_value = ''Net'' \<rparr>"

definition filter_foo :: Filter where
  "filter_foo = \<lparr> filter_key = ''foo'', filter_value = ''in'' \<rparr>"

text \<open>The component's initial state (line 178) and \<^verbatim>\<open>defaultPersistedState\<close> (line 174).\<close>

definition initial_state :: State where
  "initial_state =
     \<lparr> selectedId = None, filters = [], messagesPerSecond = 0, bandwidthPerSecond = 0 \<rparr>"

definition defaultPersistedState :: PersistedState where
  "defaultPersistedState = \<lparr> messageRows = [] \<rparr>"

section \<open>Properties\<close>

subsection \<open>Exceptions as sums\<close>

lemma bindE_Inr_iff: "bindE m f = Inr y \<longleftrightarrow> (\<exists>x. m = Inr x \<and> f x = Inr y)"
  by (cases m) auto

lemma js_error_eq: "(e :: js_error) = TypeError"
  by (cases e) simp

lemma not_Inr_TypeError: "(\<forall>y. m \<noteq> Inr y) \<longleftrightarrow> m = Inl TypeError"
  by (cases m) (auto simp: js_error_eq)

lemma filterE_total:
  "(\<And>x. x \<in> set xs \<Longrightarrow> p x = Inr (q x)) \<Longrightarrow> filterE p xs = Inr (filter q xs)"
  by (induction xs) auto

lemma filterE_Inr:
  "filterE p xs = Inr ys \<Longrightarrow>
     ys = filter (\<lambda>x. p x = Inr True) xs \<and> (\<forall>x \<in> set xs. \<exists>b. p x = Inr b)"
proof (induction xs arbitrary: ys)
  case Nil
  then show ?case by simp
next
  case (Cons x xs)
  then show ?case by (auto simp: bindE_Inr_iff split: if_splits)
qed

lemma filterE_cong_on:
  "(\<And>x. x \<in> set xs \<Longrightarrow> p x = q x) \<Longrightarrow> filterE p xs = filterE q xs"
  by (induction xs) auto

lemma mapE_Inr: "mapE f xs = Inr ys \<longleftrightarrow> list_all2 (\<lambda>x y. f x = Inr y) xs ys"
proof (induction xs arbitrary: ys)
  case Nil
  then show ?case by auto
next
  case (Cons x xs)
  then show ?case by (auto simp: bindE_Inr_iff list_all2_Cons1)
qed

lemma mapE_returns: "(\<And>x. x \<in> set xs \<Longrightarrow> \<exists>y. f x = Inr y) \<Longrightarrow> \<exists>ys. mapE f xs = Inr ys"
proof (induction xs)
  case Nil
  then show ?case by simp
next
  case (Cons x xs)
  then obtain y where "f x = Inr y" by auto
  moreover from Cons obtain ys where "mapE f xs = Inr ys" by auto
  ultimately show ?case by simp
qed

lemma set_list_all2_left: "list_all2 P xs ys \<Longrightarrow> x \<in> set xs \<Longrightarrow> \<exists>y. P x y"
  by (induction rule: list_all2_induct) auto

lemma mapE_throws:
  fixes f :: "'a \<Rightarrow> js_error + 'b"
  assumes "x \<in> set xs" and "f x = Inl TypeError"
  shows "mapE f xs = Inl TypeError"
proof -
  have "mapE f xs \<noteq> Inr ys" for ys
  proof
    assume "mapE f xs = Inr ys"
    then have "list_all2 (\<lambda>x y. f x = Inr y) xs ys" by (simp add: mapE_Inr)
    from set_list_all2_left [OF this assms(1)] assms(2) show False by simp
  qed
  then show ?thesis by (simp add: not_Inr_TypeError [symmetric])
qed

subsection \<open>Row model\<close>

lemma buildRow_one_Inr:
  "\<not> throws (args r) \<Longrightarrow>
     \<exists>row. buildRow_one fmt r = Inr row \<and> timestamp row = time r \<and> key row = id_field r"
  by (simp add: buildRow_one_def JSON_stringify_def)

lemma buildRow_one_throws: "throws (args r) \<Longrightarrow> buildRow_one fmt r = Inl TypeError"
  by (simp add: buildRow_one_def JSON_stringify_def)

lemma buildRow_one_args:
  "buildRow_one fmt r = Inr row \<Longrightarrow>
     map_of (columns row) ''args'' = Some (args_cell r) \<and> key row = id_field r
     \<and> timestamp row = time r \<and> payload row = js_of_DataRow r"
  by (auto simp: buildRow_one_def JSON_stringify_def args_cell_def bindE_Inr_iff split: if_splits)

lemma buildRow_returns:
  "(\<And>r. r \<in> set (as_array pl) \<Longrightarrow> \<not> throws (args r)) \<Longrightarrow> \<exists>rows. buildRow fmt pl = Inr rows"
  unfolding buildRow_def by (rule mapE_returns) (use buildRow_one_Inr in blast)

lemma buildRow_keys: "buildRow fmt pl = Inr rows \<Longrightarrow> map key rows = map id_field (as_array pl)"
proof -
  assume "buildRow fmt pl = Inr rows"
  then have "list_all2 (\<lambda>r row. buildRow_one fmt r = Inr row) (as_array pl) rows"
    by (simp add: buildRow_def mapE_Inr)
  then show ?thesis
    by (induction rule: list_all2_induct) (simp_all add: buildRow_one_args)
qed

lemma buildRow_event_a: "buildRow fmt0 (Single event_a) = Inr [row_a]"
  by (simp add: buildRow_def as_array_def buildRow_one_def JSON_stringify_def event_a_def
      row_a_def fmt0_def toString_def)

text \<open>
  C5. The claim: \<^verbatim>\<open>buildRow\<close> never throws; a serialization failure of \<^verbatim>\<open>args\<close> is caught
  locally, the \<^verbatim>\<open>args\<close> column receives a sentinel string, and the other events of the
  batch are still converted. The code has no handler: in a batch of a serializable event
  and an event whose \<^verbatim>\<open>args\<close> is cyclic, \<^verbatim>\<open>JSON.stringify\<close> throws and \<^verbatim>\<open>buildRow\<close> returns
  no row at all, although the first event alone converts.
\<close>

theorem buildRow_cyclic_args_counterexample:
  "buildRow fmt0 (Single event_a) = Inr [row_a]
   \<and> buildRow fmt0 (Batch [event_a, event_cyclic]) = Inl TypeError"
  by (simp add: buildRow_def as_array_def buildRow_one_def JSON_stringify_def event_a_def
      event_cyclic_def row_a_def fmt0_def toString_def)

text \<open>
  C5, as amended. If the \<^verbatim>\<open>args\<close> of some event of the payload makes \<^verbatim>\<open>JSON.stringify\<close>
  throw, the TypeError leaves \<^verbatim>\<open>buildRow\<close> and no row of the batch is produced. If no
  event does, \<^verbatim>\<open>buildRow\<close> returns one row per event, in batch order, whose \<^verbatim>\<open>args\<close> column
  holds \<^verbatim>\<open>JSON.stringify(r.args)\<close> and whose key is the event's id.
\<close>

theorem buildRow_propagates_serialization_failure:
  "((\<exists>r \<in> set (as_array pl). throws (args r)) \<longrightarrow> buildRow fmt pl = Inl TypeError)
   \<and> ((\<forall>r \<in> set (as_array pl). \<not> throws (args r)) \<longrightarrow>
        (\<exists>rows. buildRow fmt pl = Inr rows \<and>
           list_all2 (\<lambda>r row. map_of (columns row) ''args'' = Some (args_cell r)
                                \<and> key row = id_field r)
             (as_array pl) rows))"
proof (intro conjI impI)
  assume "\<exists>r \<in> set (as_array pl). throws (args r)"
  then obtain r where "r \<in> set (as_array pl)" "buildRow_one fmt r = Inl TypeError"
    using buildRow_one_throws by blast
  then show "buildRow fmt pl = Inl TypeError"
    unfolding buildRow_def by (rule mapE_throws)
next
  assume "\<forall>r \<in> set (as_array pl). \<not> throws (args r)"
  then obtain rows where rows: "buildRow fmt pl = Inr rows"
    using buildRow_returns [of pl fmt] by blast
  then have "list_all2 (\<lambda>r row. buildRow_one fmt r = Inr row) (as_array pl) rows"
    by (simp add: buildRow_def mapE_Inr)
  then have "list_all2 (\<lambda>r row. map_of (columns row) ''args'' = Some (args_cell r)
                                  \<and> key row = id_field r) (as_array pl) rows"
    by (rule list_all2_mono) (simp add: buildRow_one_args)
  with rows show "\<exists>rows. buildRow fmt pl = Inr rows \<and>
      list_all2 (\<lambda>r row. map_of (columns row) ''args'' = Some (args_cell r)
                           \<and> key row = id_field r) (as_array pl) rows"
    by blast
qed

theorem buildRow_propagates_serialization_failure_witness:
  "throws (args event_cyclic)
   \<and> buildRow fmt0 (Batch [event_a, event_cyclic]) = Inl TypeError
   \<and> \<not> throws (args event_a) \<and> \<not> throws (args event_b)
   \<and> (\<exists>rows. buildRow fmt0 (Batch [event_a, event_b]) = Inr rows \<and>
         list_all2 (\<lambda>r row. map_of (columns row) ''args'' = Some (args_cell r)
                              \<and> key row = id_field r)
           [event_a, event_b] rows)"
proof -
  have c: "throws (args event_cyclic)"
    by (simp add: event_cyclic_def)
  have a: "\<not> throws (args event_a)" and b: "\<not> throws (args event_b)"
    by (simp_all add: event_a_def event_b_def)
  have arr: "as_array (Batch [event_a, event_cyclic]) = [event_a, event_cyclic]"
    "as_array (Batch [event_a, event_b]) = [event_a, event_b]"
    by (simp_all add: as_array_def)
  from a b c arr
    buildRow_propagates_serialization_failure [of "Batch [event_a, event_cyclic]" fmt0]
    buildRow_propagates_serialization_failure [of "Batch [event_a, event_b]" fmt0]
  show ?thesis by simp
qed

subsection \<open>Retention buffer\<close>

lemma reducer_newRow_Inr:
  "persistedStateReducer fmt now ps ''newRow'' pl = Inr ps' \<longleftrightarrow>
     (\<exists>newRows. buildRow fmt pl = Inr newRows \<and>
        ps' = ps \<lparr> messageRows :=
                filter (\<lambda>row. now - timestamp row < 5 * 60 * 1000) (messageRows ps @ newRows) \<rparr>)"
  by (auto simp: persistedStateReducer_def bindE_Inr_iff)

lemma appends_snoc:
  "appends fmt ps (evs @ [(now, pl)]) =
     bindE (appends fmt ps evs) (\<lambda>ps1. persistedStateReducer fmt now ps1 ''newRow'' pl)"
proof (induction evs arbitrary: ps)
  case Nil
  then show ?case by (cases "persistedStateReducer fmt now ps ''newRow'' pl") auto
next
  case (Cons e evs)
  obtain t q where e: "e = (t, q)" by (cases e)
  show ?case
    by (cases "persistedStateReducer fmt t ps ''newRow'' q") (simp_all add: e Cons)
qed

lemma appends_returns:
  "(\<And>e r. e \<in> set evs \<Longrightarrow> r \<in> set (as_array (snd e)) \<Longrightarrow> \<not> throws (args r))
     \<Longrightarrow> \<exists>ps'. appends fmt ps evs = Inr ps'"
proof (induction evs arbitrary: ps)
  case Nil
  then show ?case by simp
next
  case (Cons e evs)
  obtain t q where e: "e = (t, q)" by (cases e)
  have "\<And>r. r \<in> set (as_array q) \<Longrightarrow> \<not> throws (args r)"
    using Cons.prems [of e] e by simp
  then have "\<exists>rows. buildRow fmt q = Inr rows"
    by (rule buildRow_returns)
  then obtain ps1 where "persistedStateReducer fmt t ps ''newRow'' q = Inr ps1"
    by (auto simp: reducer_newRow_Inr)
  moreover have "\<exists>ps'. appends fmt ps1 evs = Inr ps'"
    by (rule Cons.IH) (use Cons.prems in auto)
  ultimately show ?case by (simp add: e)
qed

lemma mapE_buildRow_keys:
  "mapE (buildRow fmt) pls = Inr batches \<Longrightarrow>
     map key (concat batches) = map id_field (concat (map as_array pls))"
proof (induction pls arbitrary: batches)
  case Nil
  then show ?case by simp
next
  case (Cons pl pls)
  then obtain rows rest where "buildRow fmt pl = Inr rows" "mapE (buildRow fmt) pls = Inr rest"
    "batches = rows # rest"
    by (auto simp: bindE_Inr_iff)
  with Cons.IH [of rest] show ?case
    by (simp add: buildRow_keys)
qed

lemma appends_subseq:
  "appends fmt ps evs = Inr ps' \<Longrightarrow>
     \<exists>batches. mapE (buildRow fmt) (map snd evs) = Inr batches \<and>
        subseq (messageRows ps') (messageRows ps @ concat batches)"
proof (induction evs arbitrary: ps)
  case Nil
  then show ?case by simp
next
  case (Cons e evs)
  obtain t q where e: "e = (t, q)" by (cases e)
  from Cons.prems obtain ps1 where
    step: "persistedStateReducer fmt t ps ''newRow'' q = Inr ps1" and
    rest: "appends fmt ps1 evs = Inr ps'"
    by (auto simp: e bindE_Inr_iff)
  from step obtain newRows where
    nr: "buildRow fmt q = Inr newRows" and
    ps1: "messageRows ps1 =
      filter (\<lambda>row. t - timestamp row < 5 * 60 * 1000) (messageRows ps @ newRows)"
    by (auto simp: reducer_newRow_Inr)
  from Cons.IH [OF rest] obtain batches where
    b: "mapE (buildRow fmt) (map snd evs) = Inr batches" and
    s: "subseq (messageRows ps') (messageRows ps1 @ concat batches)"
    by auto
  have "subseq (messageRows ps1) (messageRows ps @ newRows)"
    unfolding ps1 by (rule subseq_filter_left)
  then have "subseq (messageRows ps1 @ concat batches)
      ((messageRows ps @ newRows) @ concat batches)"
    by (rule list_emb_append_mono) simp
  with s have "subseq (messageRows ps') (messageRows ps @ concat (newRows # batches))"
    using subseq_order.order_trans by fastforce
  moreover have "mapE (buildRow fmt) (map snd (e # evs)) = Inr (newRows # batches)"
    by (simp add: e nr b)
  ultimately show ?case by blast
qed

text \<open>
  C2. After every append of any run of appends, each retained row satisfies
  \<open>now - timestamp < 5 minutes\<close> at the clock reading of that append: the append itself
  removes the older rows. The run returns whenever no event's \<^verbatim>\<open>args\<close> makes
  \<^verbatim>\<open>JSON.stringify\<close> throw.
\<close>

theorem retention_bound_after_append:
  "(appends fmt ps (evs @ [(now, pl)]) = Inr ps' \<longrightarrow>
      (\<forall>row \<in> set (messageRows ps'). now - timestamp row < 5 * 60 * 1000))
   \<and> ((\<forall>e \<in> set (evs @ [(now, pl)]). \<forall>r \<in> set (as_array (snd e)). \<not> throws (args r)) \<longrightarrow>
      (\<exists>ps1. appends fmt ps (evs @ [(now, pl)]) = Inr ps1))"
proof (intro conjI impI)
  assume "appends fmt ps (evs @ [(now, pl)]) = Inr ps'"
  then obtain ps1 where "persistedStateReducer fmt now ps1 ''newRow'' pl = Inr ps'"
    by (auto simp: appends_snoc bindE_Inr_iff)
  then show "\<forall>row \<in> set (messageRows ps'). now - timestamp row < 5 * 60 * 1000"
    by (auto simp: reducer_newRow_Inr)
next
  assume "\<forall>e \<in> set (evs @ [(now, pl)]). \<forall>r \<in> set (as_array (snd e)). \<not> throws (args r)"
  then show "\<exists>ps1. appends fmt ps (evs @ [(now, pl)]) = Inr ps1"
    by (intro appends_returns) blast
qed

theorem retention_bound_after_append_witness:
  "\<exists>ps'. appends fmt0 defaultPersistedState
             ([(2000, Single event_a)] @ [(400000, Single event_b)]) = Inr ps'
     \<and> map key (messageRows ps') = [''2'']
     \<and> (\<forall>row \<in> set (messageRows ps'). 400000 - timestamp row < 5 * 60 * 1000)"
proof -
  have "\<forall>e \<in> set ([(2000, Single event_a)] @ [(400000, Single event_b)]).
          \<forall>r \<in> set (as_array (snd e)). \<not> throws (args r)"
    by (simp add: as_array_def event_a_def event_b_def)
  with retention_bound_after_append
    [of fmt0 defaultPersistedState "[(2000, Single event_a)]" 400000 "Single event_b"]
  obtain ps' where run: "appends fmt0 defaultPersistedState
      ([(2000, Single event_a)] @ [(400000, Single event_b)]) = Inr ps'"
    by blast
  with retention_bound_after_append
    [of fmt0 defaultPersistedState "[(2000, Single event_a)]" 400000 "Single event_b" ps']
  have bound: "\<forall>row \<in> set (messageRows ps'). 400000 - timestamp row < 5 * 60 * 1000"
    by blast
  from run have "map key (messageRows ps') = [''2'']"
    by (auto simp: persistedStateReducer_def buildRow_def as_array_def buildRow_one_def
        JSON_stringify_def event_a_def event_b_def defaultPersistedState_def)
  with run bound show ?thesis by (intro exI [of _ ps']) simp
qed

text \<open>
  C7. With any method name other than \<^verbatim>\<open>"newRow"\<close> the reducer returns the persisted state
  as it received it, whatever the payload; the reducer is a function of its arguments and
  the clock alone.
\<close>

theorem reducer_other_method_unchanged:
  "meth \<noteq> ''newRow'' \<Longrightarrow> persistedStateReducer fmt now persistedState meth pl = Inr persistedState"
  by (simp add: persistedStateReducer_def)

theorem reducer_other_method_unchanged_witness:
  "''clearRows'' \<noteq> ''newRow''
   \<and> persistedStateReducer fmt0 2000 \<lparr> messageRows = [row_a] \<rparr> ''clearRows'' (Single event_cyclic)
       = Inr \<lparr> messageRows = [row_a] \<rparr>"
proof -
  have "''clearRows'' \<noteq> ''newRow''" by simp
  with reducer_other_method_unchanged
    [of "''clearRows''" fmt0 2000 "\<lparr> messageRows = [row_a] \<rparr>" "Single event_cyclic"]
  show ?thesis by simp
qed

text \<open>
  C8. One append keeps the retained old rows, in their order, before the retained new
  rows, in batch order. After any run of appends the retained rows are a subsequence of
  the rows ingested (the initial rows, then the rows of each batch in turn), so eviction
  never reorders what survives.
\<close>

theorem appends_preserve_ingestion_order:
  "(persistedStateReducer fmt now ps ''newRow'' pl = Inr ps1 \<longrightarrow>
      (\<exists>newRows. buildRow fmt pl = Inr newRows
         \<and> map key newRows = map id_field (as_array pl)
         \<and> messageRows ps1 =
             filter (\<lambda>row. now - timestamp row < 5 * 60 * 1000) (messageRows ps)
             @ filter (\<lambda>row. now - timestamp row < 5 * 60 * 1000) newRows))
   \<and> (appends fmt ps evs = Inr ps' \<longrightarrow>
      (\<exists>batches. mapE (buildRow fmt) (map snd evs) = Inr batches
         \<and> subseq (messageRows ps') (messageRows ps @ concat batches)
         \<and> subseq (map key (messageRows ps'))
              (map key (messageRows ps)
               @ map id_field (concat (map as_array (map snd evs))))))"
proof (intro conjI impI)
  assume "persistedStateReducer fmt now ps ''newRow'' pl = Inr ps1"
  then obtain newRows where nr: "buildRow fmt pl = Inr newRows"
    and "messageRows ps1 =
      filter (\<lambda>row. now - timestamp row < 5 * 60 * 1000) (messageRows ps @ newRows)"
    by (auto simp: reducer_newRow_Inr)
  with buildRow_keys [OF nr]
  show "\<exists>newRows. buildRow fmt pl = Inr newRows
         \<and> map key newRows = map id_field (as_array pl)
         \<and> messageRows ps1 =
             filter (\<lambda>row. now - timestamp row < 5 * 60 * 1000) (messageRows ps)
             @ filter (\<lambda>row. now - timestamp row < 5 * 60 * 1000) newRows"
    by simp
next
  assume "appends fmt ps evs = Inr ps'"
  from appends_subseq [OF this] obtain batches where
    b: "mapE (buildRow fmt) (map snd evs) = Inr batches" and
    s: "subseq (messageRows ps') (messageRows ps @ concat batches)"
    by blast
  from s have "subseq (map key (messageRows ps')) (map key (messageRows ps @ concat batches))"
    by (rule subseq_map)
  with mapE_buildRow_keys [OF b]
  have "subseq (map key (messageRows ps'))
      (map key (messageRows ps) @ map id_field (concat (map as_array (map snd evs))))"
    by simp
  with b s show "\<exists>batches. mapE (buildRow fmt) (map snd evs) = Inr batches
         \<and> subseq (messageRows ps') (messageRows ps @ concat batches)
         \<and> subseq (map key (messageRows ps'))
              (map key (messageRows ps)
               @ map id_field (concat (map as_array (map snd evs))))"
    by blast
qed

theorem appends_preserve_ingestion_order_witness:
  "\<exists>ps'. appends fmt0 defaultPersistedState
            [(2000, Batch [event_a, event_b]), (400000, Single event_b)] = Inr ps'
     \<and> map key (messageRows ps') = [''2'', ''2'']
     \<and> subseq (map key (messageRows ps')) [''1'', ''2'', ''2'']"
proof -
  have "\<exists>ps'. appends fmt0 defaultPersistedState
      [(2000, Batch [event_a, event_b]), (400000, Single event_b)] = Inr ps'"
    by (rule appends_returns) (auto simp: as_array_def event_a_def event_b_def)
  then obtain ps' where run: "appends fmt0 defaultPersistedState
      [(2000, Batch [event_a, event_b]), (400000, Single event_b)] = Inr ps'"
    by blast
  from run have keys: "map key (messageRows ps') = [''2'', ''2'']"
    by (auto simp: persistedStateReducer_def buildRow_def as_array_def buildRow_one_def
        JSON_stringify_def event_a_def event_b_def defaultPersistedState_def)
  from run appends_preserve_ingestion_order
    [of fmt0 _ defaultPersistedState _ _ "[(2000, Batch [event_a, event_b]), (400000, Single event_b)]" ps']
  have "subseq (map key (messageRows ps'))
      (map key (messageRows defaultPersistedState)
       @ map id_field (concat (map as_array
           (map snd [(2000 :: int, Batch [event_a, event_b]), (400000, Single event_b)]))))"
    by blast
  then have "subseq (map key (messageRows ps')) [''1'', ''2'', ''2'']"
    by (simp add: as_array_def event_a_def event_b_def defaultPersistedState_def)
  with run keys show ?thesis by (intro exI [of _ ps']) simp
qed

subsection \<open>Filter predicate\<close>

lemma filterMessages_row_first:
  "fs \<noteq> [] \<Longrightarrow> filterMessages_row now fs row = filterMessages_row now [hd fs] row"
  by (cases fs) (simp_all add: filterMessages_row_def matches_filters_def)

text \<open>
  C1. For a non-empty filter set the test of the filter set is exactly the equality test
  of its first filter, \<^verbatim>\<open>row.columns[filter.key].value === filter.value\<close>: the per-row test
  of \<^verbatim>\<open>filterMessages\<close>, and so the rows it selects, are those of the one-filter set made of
  the first filter, and within the 5-second window the per-row test returns that equality
  result. A row that fails the first filter does not match, whatever the later filters
  say.
\<close>

theorem first_filter_decides:
  "fs \<noteq> [] \<Longrightarrow>
     matches_filters fs row = filter_equals row (hd fs)
     \<and> filterMessages_row now fs row = filterMessages_row now [hd fs] row
     \<and> filterMessages now (st \<lparr> filters := fs \<rparr>) ps
         = filterMessages now (st \<lparr> filters := [hd fs] \<rparr>) ps
     \<and> (now - timestamp row \<le> 5 * 1000 \<longrightarrow>
          filterMessages_row now fs row = filter_equals row (hd fs))
     \<and> (filter_equals row (hd fs) = Inr False \<longrightarrow> filterMessages_row now fs row = Inr False)"
proof -
  assume ne: "fs \<noteq> []"
  then obtain f rest where fs: "fs = f # rest" by (cases fs) auto
  have "filterMessages now (st \<lparr> filters := fs \<rparr>) ps
      = filterMessages now (st \<lparr> filters := [hd fs] \<rparr>) ps"
    unfolding filterMessages_def
    by (rule filterE_cong_on) (simp add: filterMessages_row_first [OF ne])
  then show ?thesis
    by (simp add: fs filterMessages_row_def matches_filters_def)
qed

theorem first_filter_decides_witness:
  "[filter_type_out, filter_module_Net] \<noteq> []
   \<and> 2000 - timestamp row_a \<le> 5 * 1000
   \<and> filter_equals row_a filter_type_out = Inr False
   \<and> filter_equals row_a filter_module_Net = Inr True
   \<and> matches_filters [filter_type_out, filter_module_Net] row_a = Inr False
   \<and> filterMessages_row 2000 [filter_type_out, filter_module_Net] row_a = Inr False"
proof -
  have ne: "[filter_type_out, filter_module_Net] \<noteq> []" by simp
  have "2000 - timestamp row_a \<le> 5 * 1000"
    by (simp add: row_a_def)
  moreover have "filter_equals row_a filter_type_out = Inr False"
    by (simp add: filter_equals_def column_value_def row_a_def filter_type_out_def)
  moreover have "filter_equals row_a filter_module_Net = Inr True"
    by (simp add: filter_equals_def column_value_def row_a_def filter_module_Net_def)
  ultimately show ?thesis
    using ne first_filter_decides [OF ne, of row_a 2000 initial_state defaultPersistedState]
    by auto
qed

text \<open>
  C6. The claim: a filter whose key names no column of the row is a non-match, never an
  error. For a row made by \<^verbatim>\<open>buildRow\<close>, inside the sample window, and a filter on the key
  \<^verbatim>\<open>foo\<close>, \<^verbatim>\<open>row.columns["foo"]\<close> is \<^verbatim>\<open>undefined\<close> and reading its \<^verbatim>\<open>value\<close> throws.
\<close>

theorem missing_column_counterexample:
  "map_of (columns row_a) (filter_key filter_foo) = None
   \<and> matches_filters [filter_foo] row_a = Inl TypeError
   \<and> filterMessages_row 2000 [filter_foo] row_a = Inl TypeError"
  by (simp add: filterMessages_row_def matches_filters_def filter_equals_def column_value_def
      row_a_def filter_foo_def Object_prototype_names_def)

text \<open>
  C6, as amended. The filter key is cast to a column name (\<^verbatim>\<open>as keyof typeof columns\<close>) and
  the column is read unguarded. When the key of the first filter names a column of the row
  whose value is absent or differs from the filter's value, the test returns false and
  raises nothing. When it names neither a column of the row nor a property inherited from
  \<^verbatim>\<open>Object.prototype\<close>, the test of a row inside the 5-second window raises a TypeError; a
  key that names an inherited property reads \<^verbatim>\<open>undefined\<close> and is a non-match.
\<close>

theorem missing_column_raises:
  "(map_of (columns row) (filter_key f) = Some c \<and> value_field c \<noteq> Some (filter_value f) \<longrightarrow>
      filterMessages_row now (f # fs) row = Inr False)
   \<and> (now - timestamp row \<le> 5 * 1000 \<and> map_of (columns row) (filter_key f) = None
        \<and> filter_key f \<notin> set Object_prototype_names \<longrightarrow>
      filterMessages_row now (f # fs) row = Inl TypeError)
   \<and> (map_of (columns row) (filter_key f) = None \<and> filter_key f \<in> set Object_prototype_names \<longrightarrow>
      filterMessages_row now (f # fs) row = Inr False)"
  by (simp add: filterMessages_row_def matches_filters_def filter_equals_def column_value_def)

theorem missing_column_raises_witness:
  "map_of (columns row_a) (filter_key filter_type_out)
       = Some \<lparr> value_field = Some ''in'', isFilterable = True \<rparr>
   \<and> Some ''in'' \<noteq> Some (filter_value filter_type_out)
   \<and> filterMessages_row 2000 [filter_type_out] row_a = Inr False
   \<and> 2000 - timestamp row_a \<le> 5 * 1000
   \<and> map_of (columns row_a) (filter_key filter_foo) = None
   \<and> filter_key filter_foo \<notin> set Object_prototype_names
   \<and> filterMessages_row 2000 [filter_foo] row_a = Inl TypeError
   \<and> map_of (columns row_a) ''constructor'' = None
   \<and> ''constructor'' \<in> set Object_prototype_names
   \<and> filterMessages_row 2000 [\<lparr> filter_key = ''constructor'', filter_value = ''in'' \<rparr>] row_a
       = Inr False"
proof -
  have 1: "map_of (columns row_a) (filter_key filter_type_out)
      = Some \<lparr> value_field = Some ''in'', isFilterable = True \<rparr>"
    and 2: "Some ''in'' \<noteq> Some (filter_value filter_type_out)"
    by (simp_all add: row_a_def filter_type_out_def)
  have 3: "2000 - timestamp row_a \<le> 5 * 1000"
    and 4: "map_of (columns row_a) (filter_key filter_foo) = None"
    and 5: "filter_key filter_foo \<notin> set Object_prototype_names"
    by (simp_all add: row_a_def filter_foo_def Object_prototype_names_def)
  have 6: "map_of (columns row_a) ''constructor'' = None"
    and 7: "''constructor'' \<in> set Object_prototype_names"
    by (simp_all add: row_a_def Object_prototype_names_def)
  from 1 2 3 4 5 6 7
    missing_column_raises [of row_a filter_type_out
      "\<lparr> value_field = Some ''in'', isFilterable = True \<rparr>" 2000 "[]"]
    missing_column_raises [of row_a filter_foo _ 2000 "[]"]
    missing_column_raises
      [of row_a "\<lparr> filter_key = ''constructor'', filter_value = ''in'' \<rparr>" _ 2000 "[]"]
  show ?thesis by simp
qed

subsection \<open>Rate sampler\<close>

lemma filterMessages_row_Inr:
  "filterMessages_row now fs row = Inr b \<Longrightarrow>
     b = (now - timestamp row \<le> 5 * 1000 \<and> passes_filter_set fs row)"
  by (auto simp: filterMessages_row_def matches_filters_def filter_equals_def column_value_def
      passes_filter_set_def bindE_Inr_iff split: if_splits list.splits option.splits)

lemma filterMessages_Inr:
  assumes "filterMessages now st ps = Inr matched"
  shows "matched = sample_window_matches now (filters st) (messageRows ps)"
proof -
  from assms have m: "matched =
      filter (\<lambda>row. filterMessages_row now (filters st) row = Inr True) (messageRows ps)"
    and all: "\<forall>row \<in> set (messageRows ps). \<exists>b. filterMessages_row now (filters st) row = Inr b"
    unfolding filterMessages_def by (auto dest: filterE_Inr)
  have "filter (\<lambda>row. filterMessages_row now (filters st) row = Inr True) (messageRows ps)
      = filter (\<lambda>row. now - timestamp row \<le> 5 * 1000 \<and> passes_filter_set (filters st) row)
          (messageRows ps)"
  proof (rule filter_cong [OF refl])
    fix row
    assume "row \<in> set (messageRows ps)"
    with all obtain b where b: "filterMessages_row now (filters st) row = Inr b"
      by blast
    from filterMessages_row_Inr [OF b] b
    show "(filterMessages_row now (filters st) row = Inr True)
        = (now - timestamp row \<le> 5 * 1000 \<and> passes_filter_set (filters st) row)"
      by auto
  qed
  with m show ?thesis
    by (simp add: sample_window_matches_def)
qed

lemma filterMessages_no_filters:
  "filters st = [] \<Longrightarrow>
     filterMessages now st ps =
       Inr (filter (\<lambda>row. now - timestamp row \<le> 5 * 1000) (messageRows ps))"
  unfolding filterMessages_def
  by (rule filterE_total) (simp add: filterMessages_row_def matches_filters_def)

lemma filterE_returns:
  "(\<And>x. x \<in> set xs \<Longrightarrow> \<exists>b. p x = Inr b) \<Longrightarrow> \<exists>ys. filterE p xs = Inr ys"
proof (induction xs)
  case Nil
  then show ?case by simp
next
  case (Cons x xs)
  then obtain b where "p x = Inr b" by auto
  moreover from Cons obtain ys where "filterE p xs = Inr ys" by auto
  ultimately show ?case by simp
qed

lemma filterMessages_row_returns:
  assumes "\<forall>f \<in> set fs. map_of (columns row) (filter_key f) \<noteq> None"
  shows "\<exists>b. filterMessages_row now fs row = Inr b"
proof (cases fs)
  case Nil
  then show ?thesis by (auto simp: filterMessages_row_def matches_filters_def)
next
  case (Cons f rest)
  with assms obtain c where "map_of (columns row) (filter_key f) = Some c" by auto
  with Cons show ?thesis
    by (auto simp: filterMessages_row_def matches_filters_def filter_equals_def column_value_def)
qed

lemma filterMessages_returns:
  assumes "\<forall>row \<in> set (messageRows ps). \<forall>f \<in> set (filters st).
             map_of (columns row) (filter_key f) \<noteq> None"
  shows "\<exists>matched. filterMessages now st ps = Inr matched"
  unfolding filterMessages_def
  by (rule filterE_returns) (use assms filterMessages_row_returns in blast)

subsection \<open>Size of the serialized rows\<close>

lemma length_join_comma: "sum_list (map length xs) \<le> length (join_comma xs)"
  by (induction xs rule: join_comma.induct) auto

lemma length_escape_char: "1 \<le> length (escape_char c)"
  by (simp add: escape_char_def)

lemma length_concat_escape: "length s \<le> length (concat (map escape_char s))"
proof (induction s)
  case Nil
  then show ?case by simp
next
  case (Cons c s)
  with length_escape_char [of c] show ?case by simp
qed

lemma length_quote: "length s + 2 \<le> length (quote s)"
  using length_concat_escape [of s] by (simp add: quote_def)

lemma throws_js_of_MessageRow: "throws (js_of_MessageRow row) \<longleftrightarrow> throws (payload row)"
  by (auto simp: js_of_MessageRow_def js_of_Cell_def split: option.splits if_splits)

lemma getSizeInBytes_Inr:
  "getSizeInBytes v = Inr n \<longleftrightarrow>
     (case v of JStr s \<Rightarrow> n = length s
      | _ \<Rightarrow> \<not> throws v \<and> n = (if v = JUndefined then 0 else length (json_text v)))"
  by (cases v) (auto simp: getSizeInBytes_def JSON_stringify_def)

lemma payload_size_le: "payload_size v \<le> length (json_text v)"
proof (cases v)
  case (JStr s)
  with length_quote [of s] show ?thesis
    by (simp add: payload_size_def)
qed (simp_all add: payload_size_def)

lemma length_json_row:
  "length (json_text (payload row)) + 2 \<le> length (json_text (js_of_MessageRow row))"
proof -
  let ?kvs = "filter (\<lambda>kv. snd kv \<noteq> JUndefined)
      [(''columns'', JObj (map (\<lambda>kc. (fst kc, js_of_Cell (snd kc))) (columns row))),
       (''key'', JStr (key row)), (''payload'', payload row),
       (''timestamp'', JNum (timestamp row))]"
  let ?texts = "map (\<lambda>kv. quote (fst kv) @ '':'' @ json_text (snd kv)) ?kvs"
  have "length (json_text (payload row)) \<le> sum_list (map length ?texts)"
    by simp
  also have "\<dots> \<le> length (join_comma ?texts)"
    by (rule length_join_comma)
  finally show ?thesis
    by (simp add: js_of_MessageRow_def)
qed

lemma length_json_row_array:
  "sum_list (map (\<lambda>row. length (json_text (js_of_MessageRow row))) ms) + 2
     \<le> length (json_text (JArr (map js_of_MessageRow ms)))"
proof -
  have "\<And>row. js_of_MessageRow row \<noteq> JUndefined"
    by (simp add: js_of_MessageRow_def)
  then have eq:
    "map (\<lambda>v. if v = JUndefined then ''null'' else json_text v) (map js_of_MessageRow ms)
      = map (\<lambda>row. json_text (js_of_MessageRow row)) ms"
    by simp
  have "sum_list (map (\<lambda>row. length (json_text (js_of_MessageRow row))) ms)
      = sum_list (map length (map (\<lambda>row. json_text (js_of_MessageRow row)) ms))"
    by (simp add: comp_def)
  also have "\<dots> \<le> length (join_comma (map (\<lambda>row. json_text (js_of_MessageRow row)) ms))"
    by (rule length_join_comma)
  finally show ?thesis
    unfolding json_text.simps eq by simp
qed

lemma payload_bytes_less:
  "payload_bytes_per_second ms < of_nat (length (json_text (JArr (map js_of_MessageRow ms)))) / 5"
proof -
  have "sum_list (map (\<lambda>row. payload_size (payload row)) ms)
      \<le> sum_list (map (\<lambda>row. length (json_text (js_of_MessageRow row))) ms)"
  proof (rule sum_list_mono)
    fix row :: MessageRow
    have "payload_size (payload row) \<le> length (json_text (payload row))"
      by (rule payload_size_le)
    moreover have "length (json_text (payload row)) \<le> length (json_text (js_of_MessageRow row))"
      using length_json_row [of row] by (rule add_leD1)
    ultimately
    show "payload_size (payload row) \<le> length (json_text (js_of_MessageRow row))"
      by (rule le_trans)
  qed
  with length_json_row_array [of ms]
  have "sum_list (map (\<lambda>row. payload_size (payload row)) ms)
      < length (json_text (JArr (map js_of_MessageRow ms)))"
    by linarith
  then have "(of_nat (sum_list (map (\<lambda>row. payload_size (payload row)) ms)) :: rat) / 5
      < of_nat (length (json_text (JArr (map js_of_MessageRow ms)))) / 5"
    by (simp add: divide_strict_right_mono)
  then show ?thesis
    by (simp only: payload_bytes_per_second_def)
qed

lemma getBandwidthPerSecond_Inr:
  "getBandwidthPerSecond now st ps = Inr b \<longleftrightarrow>
     (\<exists>matched. filterMessages now st ps = Inr matched
        \<and> (\<forall>row \<in> set matched. \<not> throws (payload row))
        \<and> b = of_nat (length (json_text (JArr (map js_of_MessageRow matched)))) / 5)"
  by (auto simp: getBandwidthPerSecond_def bindE_Inr_iff getSizeInBytes_Inr
      throws_js_of_MessageRow)

subsection \<open>One sampler tick\<close>

lemma tick_Inr:
  assumes "tick now st ps = Inr st'"
  shows "(\<forall>row \<in> set (sample_window_matches now (filters st) (messageRows ps)).
            \<not> throws (payload row))
    \<and> st' = st
        \<lparr> messagesPerSecond :=
            \<lceil>(of_nat (length (sample_window_matches now (filters st) (messageRows ps))) :: rat) / 5\<rceil>,
          bandwidthPerSecond :=
            of_nat (length (json_text (JArr (map js_of_MessageRow
              (sample_window_matches now (filters st) (messageRows ps)))))) / 5 \<rparr>"
proof -
  from assms obtain mps bps where m: "getMessagesPerSecond now st ps = Inr mps"
    and b: "getBandwidthPerSecond now st ps = Inr bps"
    and st': "st' = st \<lparr> messagesPerSecond := mps, bandwidthPerSecond := bps \<rparr>"
    by (auto simp: tick_def bindE_Inr_iff)
  from b obtain matched where f: "filterMessages now st ps = Inr matched"
    and nt: "\<forall>row \<in> set matched. \<not> throws (payload row)"
    and bps: "bps = of_nat (length (json_text (JArr (map js_of_MessageRow matched)))) / 5"
    unfolding getBandwidthPerSecond_Inr by blast
  from m f have mps: "mps = \<lceil>(of_nat (length matched) :: rat) / 5\<rceil>"
    by (simp add: getMessagesPerSecond_def)
  from filterMessages_Inr [OF f] nt st' mps bps show ?thesis
    by simp
qed

lemma tick_returns:
  assumes cols: "\<forall>row \<in> set (messageRows ps). \<forall>f \<in> set (filters st).
      map_of (columns row) (filter_key f) \<noteq> None"
    and nt: "\<forall>row \<in> set (messageRows ps). \<not> throws (payload row)"
  shows "\<exists>st'. tick now st ps = Inr st'"
proof -
  from filterMessages_returns [OF cols, of now]
  obtain matched where f: "filterMessages now st ps = Inr matched"
    by blast
  from filterMessages_Inr [OF f] have "set matched \<subseteq> set (messageRows ps)"
    by (auto simp: sample_window_matches_def)
  with nt have "\<forall>row \<in> set matched. \<not> throws (payload row)"
    by blast
  with f have "\<exists>b. getBandwidthPerSecond now st ps = Inr b"
    unfolding getBandwidthPerSecond_Inr by blast
  then obtain b where "getBandwidthPerSecond now st ps = Inr b"
    by blast
  with f show ?thesis
    by (simp add: tick_def getMessagesPerSecond_def)
qed






lemma json_length_row_a: "length (json_text (JArr (map js_of_MessageRow [row_a]))) = 385"
  by code_simp

lemma buildRow_event_b: "buildRow fmt0 (Single event_b) = Inr [row_b]"
  by (simp add: buildRow_def as_array_def buildRow_one_def JSON_stringify_def event_b_def
      row_b_def fmt0_def toString_def)

lemma json_length_row_c: "length (json_text (JArr (map js_of_MessageRow [row_c]))) = 373"
  by code_simp

lemma payload_size_row_a: "payload_size (payload row_a) = 84"
  by code_simp

lemma payload_size_row_c: "payload_size (payload row_c) = 78"
  by code_simp

lemma payload_bytes_row_c: "payload_bytes_per_second [row_c] = 78 / 5"
  by (simp add: payload_bytes_per_second_def payload_size_row_c)

lemma matches_type_out:
  "sample_window_matches 2000 [filter_type_out] [row_a, row_c] = [row_c]"
  by (simp add: sample_window_matches_def passes_filter_set_def row_a_def row_c_def
      filter_type_out_def)

lemma rows_ac_have_columns:
  "\<forall>row \<in> set [row_a, row_c]. (\<forall>f \<in> set [filter_type_out].
       map_of (columns row) (filter_key f) \<noteq> None) \<and> \<not> throws (payload row)"
  by (simp add: row_a_def row_c_def filter_type_out_def js_of_DataRow_def event_a_def
      event_c_def)

lemma ceiling_one_fifth: "\<lceil>(1 :: rat) / 5\<rceil> = 1"
  by (rule ceiling_unique) simp_all




text \<open>
  C3. The claim: \<^verbatim>\<open>bytesPerSecond\<close> is the total encoded length of the matched rows'
  payloads, divided by 5. With no filter and one row made by \<^verbatim>\<open>buildRow\<close> in the window, the
  payload takes 84 bytes, so the claim gives 84/5; the tick stores 77, a fifth of the 385
  bytes of the stringified array that holds the whole row object.
\<close>

theorem tick_bandwidth_counterexample:
  "sample_window_matches 2000 (filters initial_state)
       (messageRows \<lparr> messageRows = [row_a] \<rparr>) = [row_a]
   \<and> payload_bytes_per_second [row_a] = 84 / 5
   \<and> tick 2000 initial_state \<lparr> messageRows = [row_a] \<rparr>
       = Inr (initial_state \<lparr> messagesPerSecond := 1, bandwidthPerSecond := 77 \<rparr>)
   \<and> bandwidthPerSecond (after_tick 2000 initial_state \<lparr> messageRows = [row_a] \<rparr>) = 77"
proof -
  have n: "sample_window_matches 2000 (filters initial_state)
      (messageRows \<lparr> messageRows = [row_a] \<rparr>) = [row_a]"
    by (simp add: sample_window_matches_def passes_filter_set_def initial_state_def row_a_def)
  have p: "payload_bytes_per_second [row_a] = 84 / 5"
    by (simp add: payload_bytes_per_second_def payload_size_row_a)
  have f: "filterMessages 2000 initial_state \<lparr> messageRows = [row_a] \<rparr> = Inr [row_a]"
    by (simp add: filterMessages_no_filters initial_state_def row_a_def)
  have "\<not> throws (JArr (map js_of_MessageRow [row_a]))"
    by (simp add: throws_js_of_MessageRow row_a_def js_of_DataRow_def event_a_def)
  then have "getSizeInBytes (JArr (map js_of_MessageRow [row_a])) = Inr 385"
    using json_length_row_a
    by (simp add: getSizeInBytes_def JSON_stringify_def del: throws.simps json_text.simps)
  with f have "getBandwidthPerSecond 2000 initial_state \<lparr> messageRows = [row_a] \<rparr> = Inr 77"
    by (simp add: getBandwidthPerSecond_def del: throws.simps json_text.simps)
  with f have t: "tick 2000 initial_state \<lparr> messageRows = [row_a] \<rparr>
      = Inr (initial_state \<lparr> messagesPerSecond := 1, bandwidthPerSecond := 77 \<rparr>)"
    by (simp add: tick_def getMessagesPerSecond_def ceiling_one_fifth)
  then have "bandwidthPerSecond (after_tick 2000 initial_state \<lparr> messageRows = [row_a] \<rparr>) = 77"
    by (simp add: after_tick_def)
  with n p t show ?thesis
    by (intro conjI)
qed

text \<open>
  C3, as amended. A sampler tick that completes with at least one matched row stores in
  \<^verbatim>\<open>bandwidthPerSecond\<close> the encoded length of the structural stringification of the whole
  array of matched row objects (the columns, key, payload and timestamp of every row, with
  the brackets and separators), divided by 5, the matched rows being the buffer rows within
  the 5-second sub-window that pass the active filter set. That is more than the total size
  of the matched rows' payloads, divided by 5. The tick completes whenever every active
  filter names a column of every buffer row and no row's payload makes \<^verbatim>\<open>JSON.stringify\<close>
  throw.
\<close>

theorem tick_bandwidth_counts_whole_rows:
  "(tick now st ps = Inr st'
      \<and> sample_window_matches now (filters st) (messageRows ps) \<noteq> [] \<longrightarrow>
        after_tick now st ps = st'
        \<and> bandwidthPerSecond st' =
            of_nat (length (json_text (JArr (map js_of_MessageRow
              (sample_window_matches now (filters st) (messageRows ps)))))) / 5
        \<and> payload_bytes_per_second (sample_window_matches now (filters st) (messageRows ps))
            < bandwidthPerSecond st')
   \<and> ((\<forall>row \<in> set (messageRows ps).
          (\<forall>f \<in> set (filters st). map_of (columns row) (filter_key f) \<noteq> None)
          \<and> \<not> throws (payload row)) \<longrightarrow>
      (\<exists>st1. tick now st ps = Inr st1))"
proof (intro conjI impI)
  assume a: "tick now st ps = Inr st'
    \<and> sample_window_matches now (filters st) (messageRows ps) \<noteq> []"
  then show "after_tick now st ps = st'"
    by (simp add: after_tick_def)
  from a tick_Inr [of now st ps st']
  show b: "bandwidthPerSecond st' =
      of_nat (length (json_text (JArr (map js_of_MessageRow
        (sample_window_matches now (filters st) (messageRows ps)))))) / 5"
    by (simp del: json_text.simps)
  from payload_bytes_less [of "sample_window_matches now (filters st) (messageRows ps)"]
  show "payload_bytes_per_second (sample_window_matches now (filters st) (messageRows ps))
      < bandwidthPerSecond st'"
    by (simp only: b)
next
  assume "\<forall>row \<in> set (messageRows ps).
      (\<forall>f \<in> set (filters st). map_of (columns row) (filter_key f) \<noteq> None)
      \<and> \<not> throws (payload row)"
  then show "\<exists>st1. tick now st ps = Inr st1"
    by (intro tick_returns) blast+
qed

theorem tick_bandwidth_counts_whole_rows_witness:
  "sample_window_matches 2000 [filter_type_out] [row_a, row_c] = [row_c]
   \<and> payload_bytes_per_second [row_c] = 78 / 5
   \<and> (\<exists>st1. tick 2000 (initial_state \<lparr> filters := [filter_type_out] \<rparr>)
               \<lparr> messageRows = [row_a, row_c] \<rparr> = Inr st1
        \<and> after_tick 2000 (initial_state \<lparr> filters := [filter_type_out] \<rparr>)
               \<lparr> messageRows = [row_a, row_c] \<rparr> = st1
        \<and> bandwidthPerSecond st1 = 373 / 5
        \<and> payload_bytes_per_second [row_c] < bandwidthPerSecond st1)"
proof -
  let ?st = "initial_state \<lparr> filters := [filter_type_out] \<rparr>"
  let ?ac = "\<lparr> messageRows = [row_a, row_c] \<rparr>"
  note main = tick_bandwidth_counts_whole_rows
  have n: "sample_window_matches 2000 (filters ?st) (messageRows ?ac) = [row_c]"
    using matches_type_out by simp
  have "\<forall>row \<in> set (messageRows ?ac).
      (\<forall>f \<in> set (filters ?st). map_of (columns row) (filter_key f) \<noteq> None)
      \<and> \<not> throws (payload row)"
    using rows_ac_have_columns by simp
  with main [where now = 2000 and st = ?st and ps = ?ac]
  obtain st1 where t: "tick 2000 ?st ?ac = Inr st1"
    by blast
  from n have "sample_window_matches 2000 (filters ?st) (messageRows ?ac) \<noteq> []"
    by simp
  with t main [where now = 2000 and st = ?st and ps = ?ac and st' = st1]
  have a: "after_tick 2000 ?st ?ac = st1"
    and b: "bandwidthPerSecond st1 =
      of_nat (length (json_text (JArr (map js_of_MessageRow
        (sample_window_matches 2000 (filters ?st) (messageRows ?ac)))))) / 5"
    and c: "payload_bytes_per_second (sample_window_matches 2000 (filters ?st) (messageRows ?ac))
      < bandwidthPerSecond st1"
    by blast+
  from b have b': "bandwidthPerSecond st1 = 373 / 5"
    by (simp only: n json_length_row_c)
  from c have c': "payload_bytes_per_second [row_c] < bandwidthPerSecond st1"
    by (simp only: n)
  from t a b' c' have "\<exists>st1. tick 2000 ?st ?ac = Inr st1 \<and> after_tick 2000 ?st ?ac = st1
      \<and> bandwidthPerSecond st1 = 373 / 5
      \<and> payload_bytes_per_second [row_c] < bandwidthPerSecond st1"
    by blast
  with matches_type_out payload_bytes_row_c show ?thesis
    by (intro conjI)
qed

subsection \<open>Selection and view controller\<close>

text \<open>
  C9. After \<^verbatim>\<open>clear\<close> the retained row sequence is empty and the sidebar shows the
  placeholder, for the selection \<^verbatim>\<open>clear\<close> leaves and for any other selection looked up in
  the emptied buffer. In any buffer, a selected key that no row carries resolves to the
  placeholder.
\<close>

theorem clear_resolves_to_placeholder:
  "messageRows (snd (clear st ps)) = []
   \<and> renderSidebar (fst (clear st ps)) (snd (clear st ps)) = Placeholder
   \<and> renderSidebar st1 (snd (clear st ps)) = Placeholder
   \<and> (sel \<notin> key ` set (messageRows ps1) \<longrightarrow>
        renderSidebar (st1 \<lparr> selectedId := Some sel \<rparr>) ps1 = Placeholder)"
proof -
  have "find (\<lambda>row. key row = sel) (messageRows ps1) = None"
    if "sel \<notin> key ` set (messageRows ps1)"
    using that by (auto simp: find_None_iff)
  then show ?thesis
    by (auto simp: clear_def renderSidebar_def split: option.splits)
qed

theorem clear_resolves_to_placeholder_witness:
  "renderSidebar (initial_state \<lparr> selectedId := Some ''1'' \<rparr>) \<lparr> messageRows = [row_a] \<rparr>
       = PayloadPanel (js_of_DataRow event_a)
   \<and> messageRows (snd (clear (initial_state \<lparr> selectedId := Some ''1'' \<rparr>)
                               \<lparr> messageRows = [row_a] \<rparr>)) = []
   \<and> renderSidebar (initial_state \<lparr> selectedId := Some ''1'' \<rparr>)
        (snd (clear (initial_state \<lparr> selectedId := Some ''1'' \<rparr>) \<lparr> messageRows = [row_a] \<rparr>))
       = Placeholder
   \<and> ''9'' \<notin> key ` set (messageRows \<lparr> messageRows = [row_a] \<rparr>)
   \<and> renderSidebar (initial_state \<lparr> selectedId := Some ''9'' \<rparr>) \<lparr> messageRows = [row_a] \<rparr>
       = Placeholder"
proof -
  have shown: "renderSidebar (initial_state \<lparr> selectedId := Some ''1'' \<rparr>)
      \<lparr> messageRows = [row_a] \<rparr> = PayloadPanel (js_of_DataRow event_a)"
    by (simp add: renderSidebar_def renderExtra_def row_a_def initial_state_def)
  have absent: "''9'' \<notin> key ` set (messageRows \<lparr> messageRows = [row_a] \<rparr>)"
    by (simp add: row_a_def)
  from shown absent
    clear_resolves_to_placeholder
      [of "initial_state \<lparr> selectedId := Some ''1'' \<rparr>" "\<lparr> messageRows = [row_a] \<rparr>"
          "initial_state \<lparr> selectedId := Some ''1'' \<rparr>" "''9''" "\<lparr> messageRows = [row_a] \<rparr>"]
    clear_resolves_to_placeholder
      [of "initial_state \<lparr> selectedId := Some ''1'' \<rparr>" "\<lparr> messageRows = [row_a] \<rparr>"
          initial_state "''9''" "\<lparr> messageRows = [row_a] \<rparr>"]
  show ?thesis by simp
qed

text \<open>
  C10. \<^verbatim>\<open>onRowHighlighted\<close> with an empty key list returns the state it received, every
  field as it was; with a non-empty key list it changes \<^verbatim>\<open>selectedId\<close> alone, to the first
  key.
\<close>

theorem onRowHighlighted_frame:
  "onRowHighlighted st [] = st
   \<and> onRowHighlighted st (k # ks) = st \<lparr> selectedId := Some k \<rparr>"
  by (simp add: onRowHighlighted_def)

theorem onRowHighlighted_frame_witness:
  "onRowHighlighted (initial_state \<lparr> selectedId := Some ''1'' \<rparr>) []
       = initial_state \<lparr> selectedId := Some ''1'' \<rparr>
   \<and> onRowHighlighted (initial_state \<lparr> selectedId := Some ''1'' \<rparr>) [''2'', ''3'']
       = initial_state \<lparr> selectedId := Some ''2'' \<rparr>"
  using onRowHighlighted_frame [of "initial_state \<lparr> selectedId := Some ''1'' \<rparr>" "''2''" "[''3'']"]
  by simp

end
